theory Spec2Isabelle
  imports Main "HOL-Library.AList"
begin

section \<open>The webview-view adapter of the extension host (extHostWebviewView.ts)\<close>

text \<open>
  The file holds two classes. \<^verbatim>\<open>ExtHostWebviewView\<close> wraps one webview view: a handle, a
  view type, a webview, and the mutable fields \<^verbatim>\<open>#isDisposed\<close>, \<^verbatim>\<open>#isVisible\<close> and
  \<^verbatim>\<open>#title\<close>. \<^verbatim>\<open>ExtHostWebviewViews\<close> keeps two JavaScript \<^verbatim>\<open>Map\<close>s: view type to
  (provider, extension), and handle to wrapper.

  Wrappers are objects: the provider callback receives the very object that the map holds,
  so the model keeps them in a store (\<open>heap\<close>, a list indexed by reference) and the map
  holds references. Everything the code does to a collaborator (an RPC message on the
  proxy, \<^verbatim>\<open>fire()\<close> on an emitter, \<^verbatim>\<open>super.dispose()\<close>, \<^verbatim>\<open>createNewWebview\<close>, the call of
  the provider) is appended to a log of calls, in program order. A \<^verbatim>\<open>throw\<close> (for the
  \<^verbatim>\<open>async\<close> methods: a rejected promise) is the \<open>Inl\<close> of a sum, returned next to the
  state the call leaves behind.

  Names are the source's, without the characters an identifier cannot start with:
  \<open>setVisible\<close> is \<^verbatim>\<open>_setVisible\<close>, \<open>resolveWebviewView\<close> is \<^verbatim>\<open>$resolveWebviewView\<close>,
  \<open>onDidChangeWebviewViewVisibility\<close> and \<open>disposeWebviewView\<close> likewise;
  \<open>get_title\<close> and \<open>set_title\<close> are the two accessors of \<^verbatim>\<open>title\<close>.
\<close>

subsection \<open>Values owned by the host\<close>

datatype IExtensionDescription = IExtensionDescription string

datatype WebviewViewProvider = WebviewViewProvider string

datatype CancellationToken = CancellationToken nat

text \<open>The \<^verbatim>\<open>state: any\<close> argument of \<^verbatim>\<open>$resolveWebviewView\<close>, passed on as it is.\<close>

datatype ViewState = ViewState string

text \<open>\<^verbatim>\<open>webviewOptions?: { retainContextWhenHidden?: boolean }\<close>\<close>

datatype WebviewOptions = WebviewOptions "bool option"

text \<open>
  Modelled from the spec: \<^verbatim>\<open>ExtHostWebviews.createNewWebview\<close> and the class
  \<^verbatim>\<open>ExtHostWebview\<close> are in extHostWebview.ts, a host-controlled collaborator that is
  not part of this file. The webview it returns is taken as the object made for the handle
  and the extension it was given (the options argument is the literal \<^verbatim>\<open>{}\<close>).
\<close>

datatype ExtHostWebview = ExtHostWebview string IExtensionDescription

definition createNewWebview :: "string \<Rightarrow> IExtensionDescription \<Rightarrow> ExtHostWebview" where
  "createNewWebview webviewHandle ext = ExtHostWebview webviewHandle ext"

subsection \<open>Errors\<close>

datatype error =
    Webview_is_disposed
  | View_provider_already_registered string
  | No_view_provider_found string
  | No_webview_found
  | Provider_rejected string

text \<open>
  The first four are the \<^verbatim>\<open>throw new Error(...)\<close> of the file:
  \<^verbatim>\<open>'Webview is disposed'\<close>, \<^verbatim>\<open>`View provider for '${viewType}' already registered`\<close>,
  \<^verbatim>\<open>`No view provider found for '${viewType}'`\<close> and \<^verbatim>\<open>'No webview found'\<close>.
  \<open>Provider_rejected\<close> is the rejection of the promise that the extension's
  \<^verbatim>\<open>resolveWebviewView\<close> returns, which \<^verbatim>\<open>await\<close> rethrows.
\<close>

subsection \<open>JavaScript \<^verbatim>\<open>Map\<close> as an association list\<close>

text \<open>
  A \<^verbatim>\<open>Map\<close> is its list of entries in insertion order. \<^verbatim>\<open>set\<close> replaces the value of
  a key that is present, in place, and appends a new entry otherwise; \<^verbatim>\<open>delete\<close>
  removes the entry of the key.
\<close>

definition Map_has :: "('k \<times> 'v) list \<Rightarrow> 'k \<Rightarrow> bool" where
  "Map_has m k = (map_of m k \<noteq> None)"

definition Map_get :: "('k \<times> 'v) list \<Rightarrow> 'k \<Rightarrow> 'v option" where
  "Map_get m k = map_of m k"

definition Map_set :: "'k \<Rightarrow> 'v \<Rightarrow> ('k \<times> 'v) list \<Rightarrow> ('k \<times> 'v) list" where
  "Map_set k v m = AList.update k v m"

definition Map_delete :: "'k \<Rightarrow> ('k \<times> 'v) list \<Rightarrow> ('k \<times> 'v) list" where
  "Map_delete k m = AList.delete k m"

text \<open>The entries a map holds under one key.\<close>

definition entries_of :: "('k \<times> 'v) list \<Rightarrow> 'k \<Rightarrow> 'v list" where
  "entries_of m k = map snd (filter (\<lambda>e. fst e = k) m)"

subsection \<open>class ExtHostWebviewView\<close>

text \<open>
  What a view calls on its collaborators: \<^verbatim>\<open>this.#proxy.$setWebviewViewTitle(handle, value)\<close>,
  \<^verbatim>\<open>this.#onDidChangeVisibility.fire()\<close>, \<^verbatim>\<open>this.#onDidDispose.fire()\<close> and
  \<^verbatim>\<open>super.dispose()\<close> (the \<^verbatim>\<open>Disposable\<close> base class, which disposes the two emitters).
\<close>

datatype view_call =
    Proxy_setWebviewViewTitle string "string option"
  | OnDidChangeVisibility_fire
  | OnDidDispose_fire
  | Super_dispose

record ExtHostWebviewView =
  handle :: string
  viewType :: string
  webview :: ExtHostWebview
  isDisposed :: bool
  isVisible :: bool
  title :: "string option"

text \<open>
  A method takes \<open>this\<close> and returns what it returns (or throws), the object afterwards,
  and the calls it made.
\<close>

type_synonym 'a method_result = "(error + 'a) \<times> ExtHostWebviewView \<times> view_call list"

definition new_ExtHostWebviewView ::
  "string \<Rightarrow> string \<Rightarrow> ExtHostWebview \<Rightarrow> bool \<Rightarrow> ExtHostWebviewView" where
  "new_ExtHostWebviewView h vt w vis =
     \<lparr>handle = h, viewType = vt, webview = w, isDisposed = False, isVisible = vis,
      title = None\<rparr>"

definition dispose :: "ExtHostWebviewView \<Rightarrow> unit method_result" where
  "dispose this =
     (if isDisposed this then (Inr (), this, [])
      else (Inr (), this\<lparr>isDisposed := True\<rparr>, [OnDidDispose_fire, Super_dispose]))"

definition assertNotDisposed :: "ExtHostWebviewView \<Rightarrow> error + unit" where
  "assertNotDisposed this = (if isDisposed this then Inl Webview_is_disposed else Inr ())"

definition get_title :: "ExtHostWebviewView \<Rightarrow> error + string option" where
  "get_title this =
     (case assertNotDisposed this of
        Inl e \<Rightarrow> Inl e
      | Inr _ \<Rightarrow> Inr (title this))"

definition set_title :: "string option \<Rightarrow> ExtHostWebviewView \<Rightarrow> unit method_result" where
  "set_title v this =
     (case assertNotDisposed this of
        Inl e \<Rightarrow> (Inl e, this, [])
      | Inr _ \<Rightarrow>
          if title this \<noteq> v
          then (Inr (), this\<lparr>title := v\<rparr>, [Proxy_setWebviewViewTitle (handle this) v])
          else (Inr (), this, []))"

definition get_visible :: "ExtHostWebviewView \<Rightarrow> error + bool" where
  "get_visible this = Inr (isVisible this)"

definition get_webview :: "ExtHostWebviewView \<Rightarrow> error + ExtHostWebview" where
  "get_webview this = Inr (webview this)"

definition get_viewType :: "ExtHostWebviewView \<Rightarrow> error + string" where
  "get_viewType this = Inr (viewType this)"

definition setVisible :: "bool \<Rightarrow> ExtHostWebviewView \<Rightarrow> unit method_result" where
  "setVisible visible this =
     (if visible = isVisible this then (Inr (), this, [])
      else (Inr (), this\<lparr>isVisible := visible\<rparr>, [OnDidChangeVisibility_fire]))"

text \<open>
  The life of one view object: the methods that change it, called in any order. The
  results of the calls are dropped, the calls made are collected.
\<close>

datatype view_op = Dispose | Set_title "string option" | SetVisible bool

fun view_step :: "view_op \<Rightarrow> ExtHostWebviewView \<Rightarrow> unit method_result" where
  "view_step Dispose this = dispose this"
| "view_step (Set_title v) this = set_title v this"
| "view_step (SetVisible b) this = setVisible b this"

fun view_run :: "view_op list \<Rightarrow> ExtHostWebviewView \<Rightarrow> ExtHostWebviewView \<times> view_call list" where
  "view_run [] this = (this, [])"
| "view_run (x # xs) this =
     (case view_step x this of
        (_, this', cs) \<Rightarrow> (case view_run xs this' of (this'', cs') \<Rightarrow> (this'', cs @ cs')))"

subsection \<open>class ExtHostWebviewViews\<close>

record provider_entry =
  provider :: WebviewViewProvider
  extension :: IExtensionDescription

text \<open>
  The calls on collaborators: the two RPC messages of the registry itself,
  \<^verbatim>\<open>this._extHostWebview.createNewWebview(handle, {}, extension)\<close>, the callback
  \<^verbatim>\<open>provider.resolveWebviewView(revivedView, { state }, cancellation)\<close> with the
  reference of the view it is given, and the calls of the view at a reference.
\<close>

datatype call =
    Proxy_registerWebviewViewProvider string "WebviewOptions option"
  | Proxy_unregisterWebviewViewProvider string
  | ExtHostWebviews_createNewWebview string IExtensionDescription
  | Provider_resolveWebviewView WebviewViewProvider nat ViewState CancellationToken
  | View_call nat view_call

record ExtHostWebviewViews =
  viewProviders :: "(string \<times> provider_entry) list"
  webviewViews :: "(string \<times> nat) list"
  heap :: "ExtHostWebviewView list"
  calls :: "call list"

definition new_ExtHostWebviewViews :: ExtHostWebviewViews where
  "new_ExtHostWebviewViews = \<lparr>viewProviders = [], webviewViews = [], heap = [], calls = []\<rparr>"

text \<open>
  A method call on the object at reference \<open>r\<close>: the object is updated in the store and
  its calls are logged under its reference. The registry dereferences only what its
  handle map holds, and in every state it can reach those references are allocated
  (\<open>exec_refs_allocated\<close> below).
\<close>

definition call_view ::
  "nat \<Rightarrow> (ExtHostWebviewView \<Rightarrow> 'a method_result) \<Rightarrow> ExtHostWebviewViews \<Rightarrow>
     (error + 'a) \<times> ExtHostWebviewViews" where
  "call_view r m s =
     (case m (heap s ! r) of
        (res, this', cs) \<Rightarrow>
          (res, s\<lparr>heap := (heap s)[r := this'], calls := calls s @ map (View_call r) cs\<rparr>))"

text \<open>
  Modelled from the spec: the class \<^verbatim>\<open>extHostTypes.Disposable\<close> is in extHostTypes.ts, not
  in this file; disposing one is taken to run the closure it was constructed with.
  \<^verbatim>\<open>registerWebviewViewProvider\<close> returns \<^verbatim>\<open>new extHostTypes.Disposable(() => {...})\<close>,
  and that closure is in this file: the model's \<open>Disposable\<close> is the closure, which
  captures \<^verbatim>\<open>viewType\<close>, and \<open>Disposable_dispose\<close> is its body. In a sequence of
  operations the closure may run at any time and any number of times, which covers every
  way the class can call it.
\<close>

datatype Disposable = Disposable string

definition registerWebviewViewProvider ::
  "IExtensionDescription \<Rightarrow> string \<Rightarrow> WebviewViewProvider \<Rightarrow> WebviewOptions option \<Rightarrow>
     ExtHostWebviewViews \<Rightarrow> (error + Disposable) \<times> ExtHostWebviewViews" where
  "registerWebviewViewProvider ext vt p webviewOptions s =
     (if Map_has (viewProviders s) vt
      then (Inl (View_provider_already_registered vt), s)
      else (Inr (Disposable vt),
            s\<lparr>viewProviders := Map_set vt \<lparr>provider = p, extension = ext\<rparr> (viewProviders s),
              calls := calls s @ [Proxy_registerWebviewViewProvider vt webviewOptions]\<rparr>))"

fun Disposable_dispose :: "Disposable \<Rightarrow> ExtHostWebviewViews \<Rightarrow> ExtHostWebviewViews" where
  "Disposable_dispose (Disposable vt) s =
     s\<lparr>viewProviders := Map_delete vt (viewProviders s),
       calls := calls s @ [Proxy_unregisterWebviewViewProvider vt]\<rparr>"

text \<open>
  \<^verbatim>\<open>$resolveWebviewView\<close> ends in \<^verbatim>\<open>await provider.resolveWebviewView(...)\<close>. The provider
  is extension code; what its promise does is an input of the model. Whatever the
  provider does with the view while it runs comes after every state change of
  \<^verbatim>\<open>$resolveWebviewView\<close>, so it is further operations of the trace.
\<close>

datatype provider_outcome = Resolved | Rejected string

definition resolveWebviewView ::
  "string \<Rightarrow> string \<Rightarrow> ViewState \<Rightarrow> CancellationToken \<Rightarrow> provider_outcome \<Rightarrow>
     ExtHostWebviewViews \<Rightarrow> (error + unit) \<times> ExtHostWebviewViews" where
  "resolveWebviewView webviewHandle vt st cancellation outcome s =
     (case Map_get (viewProviders s) vt of
        None \<Rightarrow> (Inl (No_view_provider_found vt), s)
      | Some entry \<Rightarrow>
          (let wv = createNewWebview webviewHandle (extension entry);
               revivedView = new_ExtHostWebviewView webviewHandle vt wv True;
               r = length (heap s)
           in (case outcome of Resolved \<Rightarrow> Inr () | Rejected msg \<Rightarrow> Inl (Provider_rejected msg),
               s\<lparr>heap := heap s @ [revivedView],
                 webviewViews := Map_set webviewHandle r (webviewViews s),
                 calls := calls s @
                   [ExtHostWebviews_createNewWebview webviewHandle (extension entry),
                    Provider_resolveWebviewView (provider entry) r st cancellation]\<rparr>)))"

definition getWebviewView :: "ExtHostWebviewViews \<Rightarrow> string \<Rightarrow> error + nat" where
  "getWebviewView s h =
     (case Map_get (webviewViews s) h of
        None \<Rightarrow> Inl No_webview_found
      | Some entry \<Rightarrow> Inr entry)"

definition onDidChangeWebviewViewVisibility ::
  "string \<Rightarrow> bool \<Rightarrow> ExtHostWebviewViews \<Rightarrow> (error + unit) \<times> ExtHostWebviewViews" where
  "onDidChangeWebviewViewVisibility webviewHandle visible s =
     (case getWebviewView s webviewHandle of
        Inl e \<Rightarrow> (Inl e, s)
      | Inr webviewView \<Rightarrow> call_view webviewView (setVisible visible) s)"

definition disposeWebviewView ::
  "string \<Rightarrow> ExtHostWebviewViews \<Rightarrow> (error + unit) \<times> ExtHostWebviewViews" where
  "disposeWebviewView webviewHandle s =
     (case getWebviewView s webviewHandle of
        Inl e \<Rightarrow> (Inl e, s)
      | Inr webviewView \<Rightarrow>
          call_view webviewView dispose
            (s\<lparr>webviewViews := Map_delete webviewHandle (webviewViews s)\<rparr>))"

subsection \<open>Sequences of operations\<close>

text \<open>
  The operations the main thread and the extension can perform, in any order: the four
  entry points of \<^verbatim>\<open>ExtHostWebviewViews\<close>, the disposal of a registration, and the two
  state-changing members of a view that the extension holds, \<^verbatim>\<open>dispose()\<close> and the
  \<^verbatim>\<open>title\<close> setter. A caller holds references of allocated objects only, so a view
  operation at a reference outside the store stands for no call and leaves the state alone.
  An operation that throws leaves the state it leaves; the next one starts from there.
\<close>

datatype op =
    Op_registerWebviewViewProvider IExtensionDescription string WebviewViewProvider
      "WebviewOptions option"
  | Op_Disposable_dispose Disposable
  | Op_resolveWebviewView string string ViewState CancellationToken provider_outcome
  | Op_onDidChangeWebviewViewVisibility string bool
  | Op_disposeWebviewView string
  | Op_view_dispose nat
  | Op_view_set_title nat "string option"

fun step :: "op \<Rightarrow> ExtHostWebviewViews \<Rightarrow> ExtHostWebviewViews" where
  "step (Op_registerWebviewViewProvider ext vt p os) s =
     snd (registerWebviewViewProvider ext vt p os s)"
| "step (Op_Disposable_dispose d) s = Disposable_dispose d s"
| "step (Op_resolveWebviewView h vt st c out) s = snd (resolveWebviewView h vt st c out s)"
| "step (Op_onDidChangeWebviewViewVisibility h b) s =
     snd (onDidChangeWebviewViewVisibility h b s)"
| "step (Op_disposeWebviewView h) s = snd (disposeWebviewView h s)"
| "step (Op_view_dispose r) s =
     (if r < length (heap s) then snd (call_view r dispose s) else s)"
| "step (Op_view_set_title r v) s =
     (if r < length (heap s) then snd (call_view r (set_title v) s) else s)"

fun exec :: "op list \<Rightarrow> ExtHostWebviewViews \<Rightarrow> ExtHostWebviewViews" where
  "exec [] s = s"
| "exec (x # xs) s = exec xs (step x s)"

text \<open>The wrappers the handle map holds under a handle that are not disposed.\<close>

definition live_wrappers :: "ExtHostWebviewViews \<Rightarrow> string \<Rightarrow> nat list" where
  "live_wrappers s h =
     filter (\<lambda>r. r < length (heap s) \<and> \<not> isDisposed (heap s ! r)) (entries_of (webviewViews s) h)"

subsection \<open>A concrete run\<close>

text \<open>
  One extension registers a provider for the view type \<^verbatim>\<open>sample.view\<close>; the main thread
  then resolves a view of that type under the handle \<^verbatim>\<open>handle-1\<close>.
\<close>

definition ex_extension :: IExtensionDescription where
  "ex_extension = IExtensionDescription ''publisher.sample''"

definition ex_provider :: WebviewViewProvider where
  "ex_provider = WebviewViewProvider ''sampleProvider''"

definition ex_register :: op where
  "ex_register = Op_registerWebviewViewProvider ex_extension ''sample.view'' ex_provider None"

definition ex_resolve :: op where
  "ex_resolve =
     Op_resolveWebviewView ''handle-1'' ''sample.view'' (ViewState ''{}'') (CancellationToken 7)
       Resolved"

definition ex_registered :: ExtHostWebviewViews where
  "ex_registered = exec [ex_register] new_ExtHostWebviewViews"

definition ex_resolved :: ExtHostWebviewViews where
  "ex_resolved = exec [ex_register, ex_resolve] new_ExtHostWebviewViews"

definition ex_view :: ExtHostWebviewView where
  "ex_view =
     new_ExtHostWebviewView ''handle-1'' ''sample.view''
       (createNewWebview ''handle-1'' ex_extension) True"

text \<open>The tokens that the provider callbacks of a log received, in order.\<close>

fun provider_tokens :: "call list \<Rightarrow> CancellationToken list" where
  "provider_tokens [] = []"
| "provider_tokens (Provider_resolveWebviewView p r st c # cs) = c # provider_tokens cs"
| "provider_tokens (_ # cs) = provider_tokens cs"

fun is_SetVisible :: "view_op \<Rightarrow> bool" where
  "is_SetVisible (SetVisible b) = True"
| "is_SetVisible _ = False"

text \<open>Every reference that the handle map holds is one of an allocated wrapper.\<close>

definition refs_allocated :: "ExtHostWebviewViews \<Rightarrow> bool" where
  "refs_allocated s = list_all (\<lambda>e. snd e < length (heap s)) (webviewViews s)"

text \<open>
  The extension disposes the view it was given, by the view's own \<^verbatim>\<open>dispose()\<close>; the main
  thread then reports the view hidden.
\<close>

definition ex_view_disposed :: ExtHostWebviewViews where
  "ex_view_disposed = exec [ex_register, ex_resolve, Op_view_dispose 0] new_ExtHostWebviewViews"

definition ex_view_hidden :: ExtHostWebviewViews where
  "ex_view_hidden =
     exec [ex_register, ex_resolve, Op_view_dispose 0,
           Op_onDidChangeWebviewViewVisibility ''handle-1'' False] new_ExtHostWebviewViews"

section \<open>Properties\<close>

subsection \<open>The maps keep one entry per key\<close>

lemma Map_set_distinct:
  "distinct (map fst m) \<Longrightarrow> distinct (map fst (Map_set k v m))"
  by (simp add: Map_set_def distinct_update)

lemma Map_delete_distinct:
  "distinct (map fst m) \<Longrightarrow> distinct (map fst (Map_delete k m))"
  by (simp add: Map_delete_def distinct_delete)

lemma Map_has_keys: "Map_has m k = (k \<in> fst ` set m)"
  by (simp add: Map_has_def map_of_eq_None_iff)

lemma Map_get_None_keys: "(Map_get m k = None) = (k \<notin> fst ` set m)"
  by (simp add: Map_get_def map_of_eq_None_iff)

lemma entries_of_distinct:
  "distinct (map fst m) \<Longrightarrow> length (entries_of m k) \<le> 1"
  by (induction m) (auto simp: entries_of_def filter_empty_conv rev_image_eqI)

lemma call_view_maps:
  "webviewViews (snd (call_view r m s)) = webviewViews s"
  "viewProviders (snd (call_view r m s)) = viewProviders s"
  by (simp_all add: call_view_def split: prod.splits)

lemma Disposable_dispose_maps:
  "webviewViews (Disposable_dispose d s) = webviewViews s"
  "distinct (map fst (viewProviders s)) \<Longrightarrow>
     distinct (map fst (viewProviders (Disposable_dispose d s)))"
  by (cases d; simp add: Map_delete_distinct)+

lemma step_webviewViews_distinct:
  "distinct (map fst (webviewViews s)) \<Longrightarrow> distinct (map fst (webviewViews (step x s)))"
  by (cases x)
     (auto simp: registerWebviewViewProvider_def Disposable_dispose_maps resolveWebviewView_def
       onDidChangeWebviewViewVisibility_def disposeWebviewView_def getWebviewView_def
       call_view_maps Map_set_distinct Map_delete_distinct Let_def
       split: option.splits sum.splits)

lemma step_viewProviders_distinct:
  "distinct (map fst (viewProviders s)) \<Longrightarrow> distinct (map fst (viewProviders (step x s)))"
  by (cases x)
     (auto simp: registerWebviewViewProvider_def Disposable_dispose_maps resolveWebviewView_def
       onDidChangeWebviewViewVisibility_def disposeWebviewView_def getWebviewView_def
       call_view_maps Map_set_distinct Map_delete_distinct Let_def
       split: option.splits sum.splits)

lemma exec_webviewViews_distinct:
  "distinct (map fst (webviewViews s)) \<Longrightarrow> distinct (map fst (webviewViews (exec xs s)))"
  by (induction xs arbitrary: s) (simp_all add: step_webviewViews_distinct)

lemma exec_viewProviders_distinct:
  "distinct (map fst (viewProviders s)) \<Longrightarrow> distinct (map fst (viewProviders (exec xs s)))"
  by (induction xs arbitrary: s) (simp_all add: step_viewProviders_distinct)

text \<open>
  Claim C1. After every sequence of operations on a fresh \<^verbatim>\<open>ExtHostWebviewViews\<close>
  (\<^verbatim>\<open>$resolveWebviewView\<close>, \<^verbatim>\<open>$disposeWebviewView\<close> and \<^verbatim>\<open>ExtHostWebviewView.dispose\<close>
  among them, in any order and with any arguments), the map \<^verbatim>\<open>_webviewViews\<close> holds
  under each handle at most one view wrapper that is not disposed.
\<close>

theorem webviewViews_at_most_one_live_wrapper:
  "length (live_wrappers (exec ops new_ExtHostWebviewViews) h) \<le> 1"
proof -
  let ?s = "exec ops new_ExtHostWebviewViews"
  have "distinct (map fst (webviewViews ?s))"
    by (rule exec_webviewViews_distinct) (simp add: new_ExtHostWebviewViews_def)
  then have "length (entries_of (webviewViews ?s) h) \<le> 1"
    by (rule entries_of_distinct)
  moreover have "length (live_wrappers ?s h) \<le> length (entries_of (webviewViews ?s) h)"
    unfolding live_wrappers_def by (rule length_filter_le)
  ultimately show ?thesis by simp
qed

text \<open>The bound is met: after the concrete run the handle has its one live wrapper.\<close>

lemma live_wrappers_ex_resolved: "live_wrappers ex_resolved ''handle-1'' = [0]"
  by (simp add: ex_resolved_def ex_register_def ex_resolve_def new_ExtHostWebviewViews_def
      registerWebviewViewProvider_def resolveWebviewView_def Map_has_def Map_get_def Map_set_def
      live_wrappers_def entries_of_def new_ExtHostWebviewView_def Let_def)

subsection \<open>Guard clauses\<close>

text \<open>
  Claim C2. \<^verbatim>\<open>registerWebviewViewProvider\<close> throws the "already registered" error exactly
  when the provider map has an entry for the view type; it throws nothing else; when it
  throws, the state (the provider map with it) is unchanged; and after every sequence of
  operations the provider map holds at most one provider per view type.
\<close>

theorem registerWebviewViewProvider_already_registered:
  "((fst (registerWebviewViewProvider ext vt p os s) = Inl (View_provider_already_registered vt))
      = (vt \<in> fst ` set (viewProviders s)))
   \<and> (isl (fst (registerWebviewViewProvider ext vt p os s)) \<longrightarrow>
        fst (registerWebviewViewProvider ext vt p os s) = Inl (View_provider_already_registered vt)
        \<and> snd (registerWebviewViewProvider ext vt p os s) = s)
   \<and> length (entries_of (viewProviders (exec ops new_ExtHostWebviewViews)) vt') \<le> 1"
proof -
  have "distinct (map fst (viewProviders (exec ops new_ExtHostWebviewViews)))"
    by (rule exec_viewProviders_distinct) (simp add: new_ExtHostWebviewViews_def)
  then have "length (entries_of (viewProviders (exec ops new_ExtHostWebviewViews)) vt') \<le> 1"
    by (rule entries_of_distinct)
  then show ?thesis
    by (simp add: registerWebviewViewProvider_def Map_has_keys)
qed

theorem registerWebviewViewProvider_already_registered_witness:
  "isl (fst (registerWebviewViewProvider ex_extension ''sample.view'' ex_provider None ex_registered))
   \<and> ''sample.view'' \<in> fst ` set (viewProviders ex_registered)
   \<and> fst (registerWebviewViewProvider ex_extension ''sample.view'' ex_provider None ex_registered)
       = Inl (View_provider_already_registered ''sample.view'')
   \<and> snd (registerWebviewViewProvider ex_extension ''sample.view'' ex_provider None ex_registered)
       = ex_registered
   \<and> fst (registerWebviewViewProvider ex_extension ''other.view'' ex_provider None ex_registered)
       = Inr (Disposable ''other.view'')"
proof -
  have reg: "viewProviders ex_registered =
      [(''sample.view'', \<lparr>provider = ex_provider, extension = ex_extension\<rparr>)]"
    by (simp add: ex_registered_def ex_register_def new_ExtHostWebviewViews_def
        registerWebviewViewProvider_def Map_has_def Map_set_def)
  have thrown:
    "isl (fst (registerWebviewViewProvider ex_extension ''sample.view'' ex_provider None
       ex_registered))"
    by (simp add: registerWebviewViewProvider_def Map_has_def reg)
  have other:
    "fst (registerWebviewViewProvider ex_extension ''other.view'' ex_provider None ex_registered)
       = Inr (Disposable ''other.view'')"
    by (simp add: registerWebviewViewProvider_def Map_has_def reg)
  from thrown other
    registerWebviewViewProvider_already_registered
      [of ex_extension "''sample.view''" ex_provider None ex_registered "[]" "''sample.view''"]
  show ?thesis by (simp add: reg)
qed

text \<open>
  Claim C3. \<^verbatim>\<open>$resolveWebviewView\<close> throws the "not registered" error exactly when the
  provider map has no entry for the view type, whatever the provider's promise would do;
  and then the state is unchanged: the store has no new wrapper, \<^verbatim>\<open>_webviewViews\<close> has
  no new entry, and the log has neither a \<^verbatim>\<open>createNewWebview\<close> nor a provider callback.
\<close>

theorem resolveWebviewView_not_registered:
  "((fst (resolveWebviewView h vt st c out s) = Inl (No_view_provider_found vt))
      = (vt \<notin> fst ` set (viewProviders s)))
   \<and> (vt \<notin> fst ` set (viewProviders s) \<longrightarrow> snd (resolveWebviewView h vt st c out s) = s)"
  by (cases "Map_get (viewProviders s) vt"; cases out)
     (use Map_get_None_keys [of "viewProviders s" vt] in
      \<open>simp_all add: resolveWebviewView_def Let_def\<close>)

theorem resolveWebviewView_not_registered_witness:
  "''absent.view'' \<notin> fst ` set (viewProviders ex_registered)
   \<and> resolveWebviewView ''handle-1'' ''absent.view'' (ViewState ''{}'') (CancellationToken 7)
        Resolved ex_registered
       = (Inl (No_view_provider_found ''absent.view''), ex_registered)
   \<and> ''sample.view'' \<in> fst ` set (viewProviders ex_registered)
   \<and> fst (resolveWebviewView ''handle-1'' ''sample.view'' (ViewState ''{}'') (CancellationToken 7)
        Resolved ex_registered) = Inr ()"
proof -
  have reg: "viewProviders ex_registered =
      [(''sample.view'', \<lparr>provider = ex_provider, extension = ex_extension\<rparr>)]"
    by (simp add: ex_registered_def ex_register_def new_ExtHostWebviewViews_def
        registerWebviewViewProvider_def Map_has_def Map_set_def)
  have absent: "''absent.view'' \<notin> fst ` set (viewProviders ex_registered)"
    by (simp add: reg)
  have ok:
    "fst (resolveWebviewView ''handle-1'' ''sample.view'' (ViewState ''{}'') (CancellationToken 7)
        Resolved ex_registered) = Inr ()"
    by (simp add: resolveWebviewView_def Map_get_def reg Let_def)
  from absent ok
    resolveWebviewView_not_registered
      [of "''handle-1''" "''absent.view''" "ViewState ''{}''" "CancellationToken 7" Resolved
        ex_registered]
  show ?thesis by (simp add: reg prod_eq_iff)
qed

subsection \<open>The life of one view\<close>

lemma view_run_Cons_fst:
  "fst (view_run (x # xs) v) = fst (view_run xs (fst (snd (view_step x v))))"
  by (simp add: case_prod_beta)

lemma view_run_Cons_snd:
  "snd (view_run (x # xs) v)
     = snd (snd (view_step x v)) @ snd (view_run xs (fst (snd (view_step x v))))"
  by (simp add: case_prod_beta)

lemma dispose_sets_isDisposed: "isDisposed (fst (snd (dispose v)))"
  by (simp add: dispose_def)

lemma view_step_keeps_isDisposed: "isDisposed v \<Longrightarrow> isDisposed (fst (snd (view_step x v)))"
  by (cases x) (simp_all add: dispose_def set_title_def assertNotDisposed_def setVisible_def)

lemma view_run_keeps_isDisposed: "isDisposed v \<Longrightarrow> isDisposed (fst (view_run xs v))"
proof (induction xs arbitrary: v)
  case Nil
  then show ?case by simp
next
  case (Cons x xs)
  from Cons.prems have "isDisposed (fst (snd (view_step x v)))"
    by (rule view_step_keeps_isDisposed)
  then have "isDisposed (fst (view_run xs (fst (snd (view_step x v)))))"
    by (rule Cons.IH)
  then show ?case by (simp only: view_run_Cons_fst)
qed

lemma view_run_Dispose: "Dispose \<in> set xs \<Longrightarrow> isDisposed (fst (view_run xs v))"
proof (induction xs arbitrary: v)
  case Nil
  then show ?case by simp
next
  case (Cons x xs)
  show ?case
  proof (cases "x = Dispose")
    case True
    have "isDisposed (fst (view_run xs (fst (snd (dispose v)))))"
      by (rule view_run_keeps_isDisposed) (rule dispose_sets_isDisposed)
    with True show ?thesis by (simp only: view_run_Cons_fst view_step.simps)
  next
    case False
    with Cons.prems have "Dispose \<in> set xs" by simp
    then have "isDisposed (fst (view_run xs (fst (snd (view_step x v)))))"
      by (rule Cons.IH)
    then show ?thesis by (simp only: view_run_Cons_fst)
  qed
qed

lemma view_step_disposed_no_fire:
  "isDisposed v \<Longrightarrow> count_list (snd (snd (view_step x v))) OnDidDispose_fire = 0"
  by (cases x) (simp_all add: dispose_def set_title_def assertNotDisposed_def setVisible_def)

lemma view_run_disposed_no_fire:
  "isDisposed v \<Longrightarrow> count_list (snd (view_run xs v)) OnDidDispose_fire = 0"
proof (induction xs arbitrary: v)
  case Nil
  then show ?case by simp
next
  case (Cons x xs)
  from Cons.prems have "isDisposed (fst (snd (view_step x v)))"
    by (rule view_step_keeps_isDisposed)
  then have "count_list (snd (view_run xs (fst (snd (view_step x v))))) OnDidDispose_fire = 0"
    by (rule Cons.IH)
  with view_step_disposed_no_fire [OF Cons.prems, of x] show ?case
    by (simp add: view_run_Cons_snd del: view_run.simps)
qed

lemma view_run_append:
  "fst (view_run (xs @ ys) v) = fst (view_run ys (fst (view_run xs v)))"
  by (induction xs arbitrary: v) (simp_all add: view_run_Cons_fst del: view_run.simps(2))

lemma view_run_keeps_isVisible:
  "list_all (\<lambda>x. \<not> is_SetVisible x) xs \<Longrightarrow> isVisible (fst (view_run xs v)) = isVisible v"
proof (induction xs arbitrary: v)
  case Nil
  then show ?case by simp
next
  case (Cons x xs)
  from Cons.prems have "isVisible (fst (snd (view_step x v))) = isVisible v"
    by (cases x) (simp_all add: dispose_def set_title_def assertNotDisposed_def)
  moreover from Cons.prems
  have "isVisible (fst (view_run xs (fst (snd (view_step x v)))))
          = isVisible (fst (snd (view_step x v)))"
    by (intro Cons.IH) simp
  ultimately show ?case by (simp add: view_run_Cons_fst del: view_run.simps)
qed

text \<open>
  Claim C4. On a view on which \<^verbatim>\<open>dispose\<close> has been called (at any point of its life,
  whatever else was called before or after), reading \<^verbatim>\<open>title\<close> throws the "disposed"
  error, and so does assigning it; the throwing assignment leaves the view as it is and
  makes no call, so it sends no \<^verbatim>\<open>$setWebviewViewTitle\<close>.
\<close>

theorem title_throws_after_dispose:
  "Dispose \<in> set ops \<Longrightarrow>
     get_title (fst (view_run ops v)) = Inl Webview_is_disposed
     \<and> set_title x (fst (view_run ops v)) = (Inl Webview_is_disposed, fst (view_run ops v), [])"
proof -
  assume "Dispose \<in> set ops"
  then have "isDisposed (fst (view_run ops v))"
    by (rule view_run_Dispose)
  then show ?thesis
    by (simp add: get_title_def set_title_def assertNotDisposed_def)
qed

theorem title_throws_after_dispose_witness:
  "Dispose \<in> set [Set_title (Some ''Files''), Dispose, SetVisible False]
   \<and> fst (view_run [Set_title (Some ''Files''), Dispose, SetVisible False] ex_view)
       = ex_view\<lparr>isDisposed := True, isVisible := False, title := Some ''Files''\<rparr>
   \<and> get_title (fst (view_run [Set_title (Some ''Files''), Dispose, SetVisible False] ex_view))
       = Inl Webview_is_disposed
   \<and> set_title (Some ''Search'')
        (fst (view_run [Set_title (Some ''Files''), Dispose, SetVisible False] ex_view))
       = (Inl Webview_is_disposed,
          fst (view_run [Set_title (Some ''Files''), Dispose, SetVisible False] ex_view), [])"
proof -
  have mem: "Dispose \<in> set [Set_title (Some ''Files''), Dispose, SetVisible False]"
    by simp
  have run: "fst (view_run [Set_title (Some ''Files''), Dispose, SetVisible False] ex_view)
       = ex_view\<lparr>isDisposed := True, isVisible := False, title := Some ''Files''\<rparr>"
    by (simp add: ex_view_def new_ExtHostWebviewView_def dispose_def set_title_def
        assertNotDisposed_def setVisible_def view_run_Cons_fst del: view_run.simps(2))
  from mem run title_throws_after_dispose [OF mem, of ex_view "Some ''Search''"]
  show ?thesis by (simp del: view_run.simps)
qed

text \<open>
  Claim C6. \<^verbatim>\<open>dispose\<close> is idempotent. On a view that is not disposed, the call sets
  \<^verbatim>\<open>#isDisposed\<close> and fires \<^verbatim>\<open>onDidDispose\<close>. Over the whole life of the view from that
  first call on, whatever is called afterwards, the event is fired exactly once; and at
  any later point a call of \<^verbatim>\<open>dispose\<close> returns with the view unchanged and no call made.
\<close>

theorem dispose_idempotent:
  "\<not> isDisposed v \<Longrightarrow>
     dispose v = (Inr (), v\<lparr>isDisposed := True\<rparr>, [OnDidDispose_fire, Super_dispose])
     \<and> count_list (snd (view_run (Dispose # ops) v)) OnDidDispose_fire = 1
     \<and> dispose (fst (view_run (Dispose # ops) v))
         = (Inr (), fst (view_run (Dispose # ops) v), [])"
proof -
  assume live: "\<not> isDisposed v"
  then have first: "dispose v = (Inr (), v\<lparr>isDisposed := True\<rparr>, [OnDidDispose_fire, Super_dispose])"
    by (simp add: dispose_def)
  have "count_list (snd (view_run ops (v\<lparr>isDisposed := True\<rparr>))) OnDidDispose_fire = 0"
    by (rule view_run_disposed_no_fire) simp
  with first have once: "count_list (snd (view_run (Dispose # ops) v)) OnDidDispose_fire = 1"
    by (simp add: view_run_Cons_snd del: view_run.simps)
  have "isDisposed (fst (view_run (Dispose # ops) v))"
    by (rule view_run_Dispose) simp
  then have "dispose (fst (view_run (Dispose # ops) v))
         = (Inr (), fst (view_run (Dispose # ops) v), [])"
    by (simp add: dispose_def)
  with first once show ?thesis by simp
qed

theorem dispose_idempotent_witness:
  "\<not> isDisposed ex_view
   \<and> dispose ex_view = (Inr (), ex_view\<lparr>isDisposed := True\<rparr>, [OnDidDispose_fire, Super_dispose])
   \<and> snd (view_run [Dispose, SetVisible False, Dispose, Dispose] ex_view)
       = [OnDidDispose_fire, Super_dispose, OnDidChangeVisibility_fire]
   \<and> count_list (snd (view_run [Dispose, SetVisible False, Dispose, Dispose] ex_view))
       OnDidDispose_fire = 1
   \<and> dispose (fst (view_run [Dispose, SetVisible False, Dispose, Dispose] ex_view))
       = (Inr (), fst (view_run [Dispose, SetVisible False, Dispose, Dispose] ex_view), [])"
proof -
  have live: "\<not> isDisposed ex_view"
    by (simp add: ex_view_def new_ExtHostWebviewView_def)
  have run: "snd (view_run [Dispose, SetVisible False, Dispose, Dispose] ex_view)
       = [OnDidDispose_fire, Super_dispose, OnDidChangeVisibility_fire]"
    by (simp add: ex_view_def new_ExtHostWebviewView_def dispose_def setVisible_def
        view_run_Cons_snd del: view_run.simps(2))
  from live run dispose_idempotent [OF live, of "[SetVisible False, Dispose, Dispose]"]
  show ?thesis by (simp del: view_run.simps)
qed

text \<open>
  Claim C8. On a view that is not disposed, assigning \<^verbatim>\<open>title\<close> the value it has
  returns with the view unchanged and no call made; assigning another value stores exactly
  that value in \<^verbatim>\<open>#title\<close>, changes no other field, and makes the single call
  \<^verbatim>\<open>$setWebviewViewTitle(handle, value)\<close> with the view's handle and exactly that value.
\<close>

theorem set_title_frame:
  "\<not> isDisposed v \<Longrightarrow>
     (x = title v \<longrightarrow> set_title x v = (Inr (), v, []))
     \<and> (x \<noteq> title v \<longrightarrow>
          set_title x v = (Inr (), v\<lparr>title := x\<rparr>, [Proxy_setWebviewViewTitle (handle v) x]))"
  by (simp add: set_title_def assertNotDisposed_def)

theorem set_title_frame_witness:
  "\<not> isDisposed ex_view \<and> None = title ex_view \<and> Some ''Files'' \<noteq> title ex_view
   \<and> set_title None ex_view = (Inr (), ex_view, [])
   \<and> set_title (Some ''Files'') ex_view
       = (Inr (), ex_view\<lparr>title := Some ''Files''\<rparr>,
          [Proxy_setWebviewViewTitle ''handle-1'' (Some ''Files'')])"
proof -
  have live: "\<not> isDisposed ex_view" and t: "title ex_view = None"
    and h: "handle ex_view = ''handle-1''"
    by (simp_all add: ex_view_def new_ExtHostWebviewView_def)
  from live t h set_title_frame [OF live, of None] set_title_frame [OF live, of "Some ''Files''"]
  show ?thesis by simp
qed

subsection \<open>The registry\<close>

lemma refs_allocated_Map_set:
  "list_all (\<lambda>e. snd e < n) m \<Longrightarrow> r < n \<Longrightarrow> list_all (\<lambda>e. snd e < n) (Map_set h r m)"
  unfolding Map_set_def by (induction m) auto

lemma refs_allocated_Map_delete:
  "list_all (\<lambda>e. snd e < n) m \<Longrightarrow> list_all (\<lambda>e. snd e < n) (Map_delete h m)"
  unfolding Map_delete_def by (induction m) auto

lemma refs_allocated_mono:
  "list_all (\<lambda>e. snd e < n) m \<Longrightarrow> n \<le> n' \<Longrightarrow> list_all (\<lambda>e. snd e < (n'::nat)) m"
  by (induction m) auto

lemma call_view_heap_length: "length (heap (snd (call_view r m s))) = length (heap s)"
  by (simp add: call_view_def case_prod_beta)

lemma step_refs_allocated: "refs_allocated s \<Longrightarrow> refs_allocated (step x s)"
proof (cases x)
  case (Op_resolveWebviewView h vt st c out)
  assume "refs_allocated s"
  then have "list_all (\<lambda>e. snd e < Suc (length (heap s))) (webviewViews s)"
    unfolding refs_allocated_def by (rule refs_allocated_mono) simp
  then have "list_all (\<lambda>e. snd e < Suc (length (heap s)))
      (Map_set h (length (heap s)) (webviewViews s))"
    by (rule refs_allocated_Map_set) simp
  with \<open>refs_allocated s\<close> Op_resolveWebviewView show ?thesis
    by (simp add: refs_allocated_def resolveWebviewView_def Let_def split: option.splits)
next
  case (Op_Disposable_dispose d)
  assume "refs_allocated s"
  with Op_Disposable_dispose show ?thesis
    by (cases d) (simp add: refs_allocated_def)
next
  case (Op_disposeWebviewView h)
  assume "refs_allocated s"
  with Op_disposeWebviewView show ?thesis
    by (simp add: refs_allocated_def disposeWebviewView_def getWebviewView_def
        call_view_maps call_view_heap_length refs_allocated_Map_delete split: option.splits)
qed (simp_all add: refs_allocated_def registerWebviewViewProvider_def
      onDidChangeWebviewViewVisibility_def getWebviewView_def call_view_maps
      call_view_heap_length split: option.splits)

lemma exec_refs_allocated: "refs_allocated s \<Longrightarrow> refs_allocated (exec xs s)"
  by (induction xs arbitrary: s) (simp_all add: step_refs_allocated)

lemma refs_allocated_Map_get:
  "refs_allocated s \<Longrightarrow> Map_get (webviewViews s) h = Some r \<Longrightarrow> r < length (heap s)"
  unfolding refs_allocated_def Map_get_def
  by (auto dest!: map_of_SomeD simp: list_all_iff)

text \<open>
  Claim C5. The closure of the \<^verbatim>\<open>Disposable\<close> that a successful
  \<^verbatim>\<open>registerWebviewViewProvider\<close> returns, run on the state the registration left,
  removes the entry of the view type (the provider map is again what it was before the
  registration) and forwards one \<^verbatim>\<open>$unregisterWebviewViewProvider(viewType)\<close>; a
  registration for the same view type, by any extension and with any provider, then
  returns a \<^verbatim>\<open>Disposable\<close> and does not throw.
\<close>

theorem register_dispose_register:
  "fst (registerWebviewViewProvider ext vt p os s) = Inr d \<Longrightarrow>
     vt \<notin> fst ` set (viewProviders
        (Disposable_dispose d (snd (registerWebviewViewProvider ext vt p os s))))
     \<and> viewProviders (Disposable_dispose d (snd (registerWebviewViewProvider ext vt p os s)))
         = viewProviders s
     \<and> calls (Disposable_dispose d (snd (registerWebviewViewProvider ext vt p os s)))
         = calls (snd (registerWebviewViewProvider ext vt p os s))
             @ [Proxy_unregisterWebviewViewProvider vt]
     \<and> fst (registerWebviewViewProvider ext' vt p' os'
          (Disposable_dispose d (snd (registerWebviewViewProvider ext vt p os s))))
         = Inr (Disposable vt)"
proof -
  assume ok: "fst (registerWebviewViewProvider ext vt p os s) = Inr d"
  then have absent: "vt \<notin> fst ` set (viewProviders s)" and d: "d = Disposable vt"
    by (auto simp: registerWebviewViewProvider_def Map_has_keys split: if_splits)
  from absent have restored:
    "Map_delete vt (Map_set vt \<lparr>provider = p, extension = ext\<rparr> (viewProviders s))
       = viewProviders s"
    by (simp add: Map_delete_def Map_set_def delete_update_same)
  from absent d restored show ?thesis
    by (simp add: registerWebviewViewProvider_def Map_has_keys)
qed

theorem register_dispose_register_witness:
  "fst (registerWebviewViewProvider ex_extension ''sample.view'' ex_provider None
         new_ExtHostWebviewViews) = Inr (Disposable ''sample.view'')
   \<and> viewProviders ex_registered
       = [(''sample.view'', \<lparr>provider = ex_provider, extension = ex_extension\<rparr>)]
   \<and> viewProviders (Disposable_dispose (Disposable ''sample.view'') ex_registered) = []
   \<and> calls (Disposable_dispose (Disposable ''sample.view'') ex_registered)
       = [Proxy_registerWebviewViewProvider ''sample.view'' None,
          Proxy_unregisterWebviewViewProvider ''sample.view'']
   \<and> fst (registerWebviewViewProvider ex_extension ''sample.view'' ex_provider None
         (Disposable_dispose (Disposable ''sample.view'') ex_registered))
       = Inr (Disposable ''sample.view'')"
proof -
  have ok: "fst (registerWebviewViewProvider ex_extension ''sample.view'' ex_provider None
         new_ExtHostWebviewViews) = Inr (Disposable ''sample.view'')"
    by (simp add: registerWebviewViewProvider_def new_ExtHostWebviewViews_def Map_has_def)
  have reg: "ex_registered = snd (registerWebviewViewProvider ex_extension ''sample.view''
         ex_provider None new_ExtHostWebviewViews)"
    by (simp add: ex_registered_def ex_register_def)
  have provs: "viewProviders ex_registered
       = [(''sample.view'', \<lparr>provider = ex_provider, extension = ex_extension\<rparr>)]"
    and cs: "calls ex_registered = [Proxy_registerWebviewViewProvider ''sample.view'' None]"
    by (simp_all add: reg registerWebviewViewProvider_def new_ExtHostWebviewViews_def
        Map_has_def Map_set_def)
  have fresh: "viewProviders new_ExtHostWebviewViews = []"
    by (simp add: new_ExtHostWebviewViews_def)
  from ok provs cs register_dispose_register [OF ok, of ex_extension ex_provider None]
  show ?thesis
    by (simp add: reg [symmetric] fresh Map_delete_def)
qed

text \<open>
  Claim C7. In every state the registry can reach, for a handle that \<^verbatim>\<open>_webviewViews\<close>
  maps to a view, \<^verbatim>\<open>$onDidChangeWebviewViewVisibility(handle, visible)\<close> returns, and the
  calls it makes are one \<^verbatim>\<open>fire()\<close> of that view's \<^verbatim>\<open>onDidChangeVisibility\<close> when
  \<^verbatim>\<open>visible\<close> differs from the view's \<^verbatim>\<open>#isVisible\<close>, and none when it does not; afterwards
  the view's \<^verbatim>\<open>visible\<close> getter returns \<^verbatim>\<open>visible\<close>; and when the value is the one the view
  has, the whole state is unchanged.
\<close>

theorem visibility_relay:
  "s = exec ops new_ExtHostWebviewViews \<Longrightarrow> Map_get (webviewViews s) h = Some r \<Longrightarrow>
     fst (onDidChangeWebviewViewVisibility h b s) = Inr ()
     \<and> calls (snd (onDidChangeWebviewViewVisibility h b s))
         = calls s @ (if b \<noteq> isVisible (heap s ! r)
                      then [View_call r OnDidChangeVisibility_fire] else [])
     \<and> get_visible (heap (snd (onDidChangeWebviewViewVisibility h b s)) ! r) = Inr b
     \<and> (b = isVisible (heap s ! r) \<longrightarrow> snd (onDidChangeWebviewViewVisibility h b s) = s)"
proof -
  assume s: "s = exec ops new_ExtHostWebviewViews"
    and get: "Map_get (webviewViews s) h = Some r"
  have "refs_allocated s"
    unfolding s by (rule exec_refs_allocated) (simp add: refs_allocated_def new_ExtHostWebviewViews_def)
  from this get have r: "r < length (heap s)"
    by (rule refs_allocated_Map_get)
  from get have relay: "onDidChangeWebviewViewVisibility h b s = call_view r (setVisible b) s"
    by (simp add: onDidChangeWebviewViewVisibility_def getWebviewView_def)
  show ?thesis
  proof (cases "b = isVisible (heap s ! r)")
    case True
    then have "call_view r (setVisible b) s = (Inr (), s)"
      by (simp add: call_view_def setVisible_def)
    with True relay show ?thesis
      by (simp add: get_visible_def)
  next
    case False
    then have "call_view r (setVisible b) s
        = (Inr (), s\<lparr>heap := (heap s)[r := (heap s ! r)\<lparr>isVisible := b\<rparr>],
                     calls := calls s @ [View_call r OnDidChangeVisibility_fire]\<rparr>)"
      by (simp add: call_view_def setVisible_def)
    with False relay r show ?thesis
      by (simp add: get_visible_def)
  qed
qed

theorem visibility_relay_witness:
  "ex_resolved = exec [ex_register, ex_resolve] new_ExtHostWebviewViews
   \<and> Map_get (webviewViews ex_resolved) ''handle-1'' = Some 0
   \<and> isVisible (heap ex_resolved ! 0)
   \<and> onDidChangeWebviewViewVisibility ''handle-1'' True ex_resolved = (Inr (), ex_resolved)
   \<and> fst (onDidChangeWebviewViewVisibility ''handle-1'' False ex_resolved) = Inr ()
   \<and> calls (snd (onDidChangeWebviewViewVisibility ''handle-1'' False ex_resolved))
       = calls ex_resolved @ [View_call 0 OnDidChangeVisibility_fire]
   \<and> get_visible (heap (snd (onDidChangeWebviewViewVisibility ''handle-1'' False ex_resolved)) ! 0)
       = Inr False"
proof -
  have s: "ex_resolved = exec [ex_register, ex_resolve] new_ExtHostWebviewViews"
    by (simp add: ex_resolved_def)
  have views: "webviewViews ex_resolved = [(''handle-1'', 0)]"
    and vis: "isVisible (heap ex_resolved ! 0)"
    by (simp_all add: ex_resolved_def ex_register_def ex_resolve_def new_ExtHostWebviewViews_def
        registerWebviewViewProvider_def resolveWebviewView_def Map_has_def Map_get_def
        Map_set_def new_ExtHostWebviewView_def Let_def)
  have get: "Map_get (webviewViews ex_resolved) ''handle-1'' = Some 0"
    by (simp add: views Map_get_def)
  from s get vis visibility_relay [OF s get, of True] visibility_relay [OF s get, of False]
  show ?thesis
    by (simp add: prod_eq_iff)
qed

text \<open>
  Claim C9. Every \<^verbatim>\<open>$resolveWebviewView\<close> call that finds a provider (so every successful
  one) makes exactly two calls: \<^verbatim>\<open>createNewWebview\<close>, and the \<^verbatim>\<open>resolveWebviewView\<close> of
  the provider registered for the view type, with the new view, the state and the very
  cancellation token that \<^verbatim>\<open>$resolveWebviewView\<close> was given. So the one token a provider
  receives in the call is that token.
\<close>

theorem resolveWebviewView_passes_token:
  "fst (resolveWebviewView h vt st c out s) \<noteq> Inl (No_view_provider_found vt) \<Longrightarrow>
     (\<exists>entry. Map_get (viewProviders s) vt = Some entry
        \<and> calls (snd (resolveWebviewView h vt st c out s))
            = calls s @ [ExtHostWebviews_createNewWebview h (extension entry),
                         Provider_resolveWebviewView (provider entry) (length (heap s)) st c])
     \<and> provider_tokens (drop (length (calls s)) (calls (snd (resolveWebviewView h vt st c out s))))
         = [c]"
  by (cases "Map_get (viewProviders s) vt")
     (simp_all add: resolveWebviewView_def Let_def)

theorem resolveWebviewView_passes_token_witness:
  "fst (resolveWebviewView ''handle-1'' ''sample.view'' (ViewState ''{}'') (CancellationToken 7)
         Resolved ex_registered) = Inr ()
   \<and> calls (snd (resolveWebviewView ''handle-1'' ''sample.view'' (ViewState ''{}'')
         (CancellationToken 7) Resolved ex_registered))
       = [Proxy_registerWebviewViewProvider ''sample.view'' None,
          ExtHostWebviews_createNewWebview ''handle-1'' ex_extension,
          Provider_resolveWebviewView ex_provider 0 (ViewState ''{}'') (CancellationToken 7)]
   \<and> provider_tokens (drop (length (calls ex_registered))
         (calls (snd (resolveWebviewView ''handle-1'' ''sample.view'' (ViewState ''{}'')
           (CancellationToken 7) Resolved ex_registered))))
       = [CancellationToken 7]"
proof -
  have reg: "ex_registered =
      \<lparr>viewProviders = [(''sample.view'', \<lparr>provider = ex_provider, extension = ex_extension\<rparr>)],
       webviewViews = [], heap = [],
       calls = [Proxy_registerWebviewViewProvider ''sample.view'' None]\<rparr>"
    by (simp add: ex_registered_def ex_register_def new_ExtHostWebviewViews_def
        registerWebviewViewProvider_def Map_has_def Map_set_def)
  have ok: "fst (resolveWebviewView ''handle-1'' ''sample.view'' (ViewState ''{}'')
         (CancellationToken 7) Resolved ex_registered) = Inr ()"
    by (simp add: reg resolveWebviewView_def Map_get_def Let_def)
  then have found: "fst (resolveWebviewView ''handle-1'' ''sample.view'' (ViewState ''{}'')
         (CancellationToken 7) Resolved ex_registered) \<noteq> Inl (No_view_provider_found ''sample.view'')"
    by simp
  have cs: "calls (snd (resolveWebviewView ''handle-1'' ''sample.view'' (ViewState ''{}'')
         (CancellationToken 7) Resolved ex_registered))
       = [Proxy_registerWebviewViewProvider ''sample.view'' None,
          ExtHostWebviews_createNewWebview ''handle-1'' ex_extension,
          Provider_resolveWebviewView ex_provider 0 (ViewState ''{}'') (CancellationToken 7)]"
    by (simp add: reg resolveWebviewView_def Map_get_def Let_def)
  from ok cs resolveWebviewView_passes_token [OF found]
  show ?thesis by simp
qed

subsection \<open>Getters of a disposed view\<close>

lemma setVisible_isVisible: "isVisible (fst (snd (setVisible b v))) = b"
  by (simp add: setVisible_def)

lemma view_run_last_SetVisible:
  assumes "list_all (\<lambda>x. \<not> is_SetVisible x) ys"
  shows "isVisible (fst (view_run (xs @ SetVisible b # ys) v)) = b"
proof -
  let ?v1 = "fst (view_run xs v)"
  have "fst (view_run (xs @ SetVisible b # ys) v)
      = fst (view_run ys (fst (snd (setVisible b ?v1))))"
    by (simp only: view_run_append view_run_Cons_fst view_step.simps)
  moreover from assms
  have "isVisible (fst (view_run ys (fst (snd (setVisible b ?v1)))))
      = isVisible (fst (snd (setVisible b ?v1)))"
    by (rule view_run_keeps_isVisible)
  ultimately show ?thesis
    by (simp only: setVisible_isVisible)
qed

text \<open>
  Claim C10, as the code has it. The getters \<^verbatim>\<open>visible\<close>, \<^verbatim>\<open>viewType\<close> and \<^verbatim>\<open>webview\<close>
  return their field on every view, disposed or not; the \<^verbatim>\<open>title\<close> getter and setter
  throw exactly on a disposed view. \<^verbatim>\<open>dispose\<close> leaves \<^verbatim>\<open>#isVisible\<close> as it is, and
  so does every call but \<^verbatim>\<open>_setVisible\<close>: \<^verbatim>\<open>visible\<close> returns the value of the most recent
  \<^verbatim>\<open>_setVisible\<close> (the constructor's value when there was none), whether the view was
  disposed before that call, after it, or not at all.
\<close>

theorem getters_after_disposal:
  "get_visible v = Inr (isVisible v)
   \<and> get_viewType v = Inr (viewType v)
   \<and> get_webview v = Inr (webview v)
   \<and> isl (get_title v) = isDisposed v
   \<and> isl (fst (set_title x v)) = isDisposed v
   \<and> get_visible (fst (snd (dispose v))) = get_visible v
   \<and> (list_all (\<lambda>x. \<not> is_SetVisible x) ops' \<longrightarrow>
        get_visible (fst (view_run ops' v)) = get_visible v
        \<and> get_visible (fst (view_run (ops @ SetVisible b # ops') v)) = Inr b)"
proof -
  have getters: "get_visible v = Inr (isVisible v) \<and> get_viewType v = Inr (viewType v)
      \<and> get_webview v = Inr (webview v)"
    by (simp add: get_visible_def get_viewType_def get_webview_def)
  have guards: "isl (get_title v) = isDisposed v \<and> isl (fst (set_title x v)) = isDisposed v"
    by (simp add: get_title_def set_title_def assertNotDisposed_def)
  have kept: "get_visible (fst (snd (dispose v))) = get_visible v"
    by (simp add: get_visible_def dispose_def)
  have last: "get_visible (fst (view_run ops' v)) = get_visible v
      \<and> get_visible (fst (view_run (ops @ SetVisible b # ops') v)) = Inr b"
    if "list_all (\<lambda>x. \<not> is_SetVisible x) ops'"
    using view_run_keeps_isVisible [OF that, of v] view_run_last_SetVisible [OF that, of ops b v]
    by (simp only: get_visible_def)
  from getters guards kept last show ?thesis
    by blast
qed

theorem getters_after_disposal_witness:
  "list_all (\<lambda>x. \<not> is_SetVisible x) [Dispose, Set_title None]
   \<and> isDisposed (fst (view_run [Dispose] ex_view))
   \<and> get_visible (fst (view_run [Dispose] ex_view)) = Inr True
   \<and> get_viewType (fst (view_run [Dispose] ex_view)) = Inr ''sample.view''
   \<and> isl (get_title (fst (view_run [Dispose] ex_view)))
   \<and> isl (fst (set_title (Some ''Files'') (fst (view_run [Dispose] ex_view))))
   \<and> get_visible (fst (view_run ([Dispose] @ SetVisible False # [Dispose, Set_title None]) ex_view))
       = Inr False"
proof -
  have quiet: "list_all (\<lambda>x. \<not> is_SetVisible x) [Dispose, Set_title None]"
    by simp
  have v: "fst (view_run [Dispose] ex_view) = ex_view\<lparr>isDisposed := True\<rparr>"
    by (simp add: ex_view_def new_ExtHostWebviewView_def dispose_def)
  have fields: "isVisible ex_view" "viewType ex_view = ''sample.view''"
    by (simp_all add: ex_view_def new_ExtHostWebviewView_def)
  from quiet fields
    getters_after_disposal [of "ex_view\<lparr>isDisposed := True\<rparr>" "Some ''Files''"
      "[Dispose, Set_title None]" "[Dispose]" False]
    getters_after_disposal [of ex_view None "[Dispose, Set_title None]" "[Dispose]" False]
  show ?thesis
    by (simp add: v del: view_run.simps append.simps)
qed

text \<open>
  Claim C10, as it is written, says that \<^verbatim>\<open>visible\<close> of a disposed view returns the last
  value set before disposal. In the concrete run the view is made visible by its constructor
  and nothing changes that before the extension disposes it by its own \<^verbatim>\<open>dispose()\<close>, which
  leaves it in \<^verbatim>\<open>_webviewViews\<close>. The main thread then reports it hidden: the relay reaches
  the disposed view, \<^verbatim>\<open>_setVisible\<close> has no disposal guard, and \<^verbatim>\<open>visible\<close> returns
  \<^verbatim>\<open>false\<close>.
\<close>

theorem visible_after_disposal_counterexample:
  "get_visible (heap ex_resolved ! 0) = Inr True
   \<and> isDisposed (heap ex_view_disposed ! 0)
   \<and> get_visible (heap ex_view_disposed ! 0) = Inr True
   \<and> isDisposed (heap ex_view_hidden ! 0)
   \<and> get_visible (heap ex_view_hidden ! 0) = Inr False"
  by (simp add: ex_resolved_def ex_view_disposed_def ex_view_hidden_def ex_register_def
      ex_resolve_def new_ExtHostWebviewViews_def registerWebviewViewProvider_def
      resolveWebviewView_def onDidChangeWebviewViewVisibility_def getWebviewView_def
      call_view_def dispose_def setVisible_def get_visible_def new_ExtHostWebviewView_def
      Map_has_def Map_get_def Map_set_def Let_def)

end
